theory Spec2Isabelle
  imports Main "HOL-Library.Sublist"
begin

section \<open>JavaScript values and thrown errors\<close>

text \<open>
  Plain objects (\<open>PDFOptions\<close>, the \<open>props\<close> handed to the page) are maps from
  property names to values. Object spread \<open>{ ...a, ...b }\<close> is the right-biased
  map sum \<open>a ++ b\<close>: a key of \<open>b\<close> overrides the same key of \<open>a\<close>.
\<close>

datatype jsval = JUndefined | JNull | JBool bool | JNum int | JStr string

type_synonym jsobj = "string \<rightharpoonup> jsval"

text \<open>
  What a \<open>catch (error: any)\<close> can receive: an \<open>Error\<close> object with its
  \<open>name\<close> and \<open>message\<close>, or some other thrown value, kept as its string form.
\<close>

datatype jsthrown = JsError string string | JsValue string

text \<open>\<open>new Error(msg)\<close>.\<close>

definition new_Error :: "string \<Rightarrow> jsthrown" where
  "new_Error msg = JsError ''Error'' msg"

text \<open>\<open>`${error}`\<close>: \<open>Error.prototype.toString\<close> for an error object.\<close>

fun toString :: "jsthrown \<Rightarrow> string" where
  "toString (JsError n m) =
     (if n = [] then m else if m = [] then n else n @ '': '' @ m)"
| "toString (JsValue s) = s"

text \<open>
  \<open>`${error.message || error}`\<close>: the message when it is a non-empty string,
  the string form of the thrown value otherwise.
\<close>

fun message_or_error :: "jsthrown \<Rightarrow> string" where
  "message_or_error (JsError n m) = (if m \<noteq> [] then m else toString (JsError n m))"
| "message_or_error (JsValue s) = s"

section \<open>PDF buffers\<close>

text \<open>
  A \<open>Buffer\<close> is either the bytes of a complete PDF document, abstracted to the
  sequence of its pages, or bytes that do not decode as a PDF.
\<close>

type_synonym pdfpage = string

datatype buffer = PdfDocument "pdfpage list" | NotPdf string

section \<open>The generator object and the world it runs in\<close>

record PDFGenerator =
  data :: string
  pdfOptions :: jsobj

record IPageRenderData =
  content :: "string option"
  templatePath :: "string option"
  page_pdfOptions :: "jsobj option"
  props :: "jsobj option"

text \<open>
  Every call into a collaborator (file system, rendering engine, console) is
  recorded, in order, as an event.
\<close>

datatype event =
    ReadFile string
  | Launch
  | NewPage
  | Evaluate jsobj
  | SetContent string
  | Pdf jsobj
  | Close
  | ConsoleError string

type_synonym ref = nat

record world =
  objs :: "ref \<Rightarrow> PDFGenerator"
  events :: "event list"

text \<open>
  The collaborators are parameters. Each answers a call from the history of
  events so far and the call's arguments, with a thrown value (\<open>Inl\<close>) or a
  result (\<open>Inr\<close>).
\<close>

record env =
  readFile_result :: "event list \<Rightarrow> string \<Rightarrow> jsthrown + string"
  launch_result :: "event list \<Rightarrow> jsthrown + unit"
  newPage_result :: "event list \<Rightarrow> jsthrown + unit"
  evaluate_result :: "event list \<Rightarrow> jsobj \<Rightarrow> jsthrown + unit"
  setContent_result :: "event list \<Rightarrow> string \<Rightarrow> jsthrown + unit"
  pdf_result :: "event list \<Rightarrow> jsobj \<Rightarrow> jsthrown + buffer"
  close_result :: "event list \<Rightarrow> jsthrown + unit"

subsection \<open>Computations that may throw\<close>

type_synonym 'a comp = "world \<Rightarrow> (jsthrown + 'a) \<times> world"

definition returnc :: "'a \<Rightarrow> 'a comp" where
  "returnc x w = (Inr x, w)"

definition throwc :: "jsthrown \<Rightarrow> 'a comp" where
  "throwc e w = (Inl e, w)"

definition bindc :: "'a comp \<Rightarrow> ('a \<Rightarrow> 'b comp) \<Rightarrow> 'b comp" where
  "bindc m f w = (case m w of (Inl e, w') \<Rightarrow> (Inl e, w') | (Inr x, w') \<Rightarrow> f x w')"

definition try_catch :: "'a comp \<Rightarrow> (jsthrown \<Rightarrow> 'a comp) \<Rightarrow> 'a comp" where
  "try_catch m h w = (case m w of (Inl e, w') \<Rightarrow> h e w' | (Inr x, w') \<Rightarrow> (Inr x, w'))"

text \<open>A call into a collaborator: record the event and take the answer.\<close>

definition call :: "event \<Rightarrow> (event list \<Rightarrow> jsthrown + 'a) \<Rightarrow> 'a comp" where
  "call ev answer w = (answer (events w), w\<lparr>events := events w @ [ev]\<rparr>)"

definition fs_promises_readFile :: "env \<Rightarrow> string \<Rightarrow> string comp" where
  "fs_promises_readFile E filePath = call (ReadFile filePath) (\<lambda>h. readFile_result E h filePath)"

definition puppeteer_launch :: "env \<Rightarrow> unit comp" where
  "puppeteer_launch E = call Launch (launch_result E)"

definition browser_newPage :: "env \<Rightarrow> unit comp" where
  "browser_newPage E = call NewPage (newPage_result E)"

definition page_evaluate :: "env \<Rightarrow> jsobj \<Rightarrow> unit comp" where
  "page_evaluate E p = call (Evaluate p) (\<lambda>h. evaluate_result E h p)"

definition page_setContent :: "env \<Rightarrow> string \<Rightarrow> unit comp" where
  "page_setContent E html = call (SetContent html) (\<lambda>h. setContent_result E h html)"

definition page_pdf :: "env \<Rightarrow> jsobj \<Rightarrow> buffer comp" where
  "page_pdf E opts = call (Pdf opts) (\<lambda>h. pdf_result E h opts)"

definition browser_close :: "env \<Rightarrow> unit comp" where
  "browser_close E = call Close (close_result E)"

definition console_error :: "string \<Rightarrow> unit comp" where
  "console_error s = call (ConsoleError s) (\<lambda>h. Inr ())"

text \<open>Reading and writing the fields of \<open>this\<close>.\<close>

definition get_data :: "ref \<Rightarrow> string comp" where
  "get_data this w = (Inr (data (objs w this)), w)"

definition get_pdfOptions :: "ref \<Rightarrow> jsobj comp" where
  "get_pdfOptions this w = (Inr (pdfOptions (objs w this)), w)"

definition set_data :: "ref \<Rightarrow> string \<Rightarrow> unit comp" where
  "set_data this d w = (Inr (), w\<lparr>objs := (objs w)(this := (objs w this)\<lparr>data := d\<rparr>)\<rparr>)"

definition set_pdfOptions :: "ref \<Rightarrow> jsobj \<Rightarrow> unit comp" where
  "set_pdfOptions this opts w =
     (Inr (), w\<lparr>objs := (objs w)(this := (objs w this)\<lparr>pdfOptions := opts\<rparr>)\<rparr>)"

section \<open>class PDFGenerator\<close>

text \<open>
  \<open>constructor(format: PaperFormat = "A4")\<close>, run on the freshly allocated
  object \<open>this\<close>; \<open>None\<close> is the omitted argument.
\<close>

definition PDFGenerator_constructor :: "string option \<Rightarrow> ref \<Rightarrow> ref comp" where
  "PDFGenerator_constructor format this =
     (let format = (case format of None \<Rightarrow> ''A4'' | Some f \<Rightarrow> f) in
      bindc (set_data this '''') (\<lambda>_.
      bindc (set_pdfOptions this [''format'' \<mapsto> JStr format]) (\<lambda>_.
      returnc this)))"

definition setPdfOptions :: "jsobj \<Rightarrow> ref \<Rightarrow> ref comp" where
  "setPdfOptions opts this =
     bindc (set_pdfOptions this opts) (\<lambda>_.
     returnc this)"

definition fromContent :: "string \<Rightarrow> ref \<Rightarrow> ref comp" where
  "fromContent d this =
     bindc (set_data this d) (\<lambda>_.
     returnc this)"

definition fromFile :: "env \<Rightarrow> string \<Rightarrow> ref \<Rightarrow> ref comp" where
  "fromFile E filePath this =
     try_catch
       (bindc (fs_promises_readFile E filePath) (\<lambda>fileContent.
        bindc (set_data this fileContent) (\<lambda>_.
        returnc this)))
       (\<lambda>error.
        bindc (console_error (message_or_error error)) (\<lambda>_.
        throwc (new_Error (''Error reading file at path: '' @ [CHR 0x22] @ filePath
                           @ [CHR 0x22, CHR 0x0A] @ toString error))))"

text \<open>
  \<open>generatePdf(props = {pageNumber: 1})\<close>; \<open>None\<close> is the omitted argument.
  The browser is closed on the path that reaches \<open>browser.close()\<close> only.
\<close>

definition generatePdf :: "env \<Rightarrow> jsobj option \<Rightarrow> ref \<Rightarrow> buffer comp" where
  "generatePdf E props_arg this =
     (let props = (case props_arg of None \<Rightarrow> [''pageNumber'' \<mapsto> JNum 1] | Some p \<Rightarrow> p) in
      try_catch
        (bindc (puppeteer_launch E) (\<lambda>_.
         bindc (browser_newPage E) (\<lambda>_.
         bindc (page_evaluate E props) (\<lambda>_.
         bindc (get_data this) (\<lambda>d.
         bindc (page_setContent E d) (\<lambda>_.
         bindc (get_pdfOptions this) (\<lambda>opts.
         bindc (page_pdf E opts) (\<lambda>pdfBuffer.
         bindc (browser_close E) (\<lambda>_.
         returnc pdfBuffer)))))))))
        (\<lambda>error.
         bindc (console_error (message_or_error error)) (\<lambda>_.
         throwc (new_Error (''Generate PDF Error: '' @ message_or_error error)))))"

section \<open>The PDF editing library\<close>

text \<open>
  The calls \<open>mergePDFs\<close> makes into the library, as parameters:
  \<open>new PDFRStreamForBuffer(b)\<close> (\<open>None\<close> is \<open>undefined\<close>),
  \<open>createWriterToModify(stream, out)\<close>, \<open>writer.appendPDFPagesFromPDF(stream)\<close>,
  and \<open>writer.end()\<close> followed by \<open>outStream.toBuffer()\<close>. The in-memory
  output stream and its wrapper belong to the writer.
\<close>

record ('rs, 'wr) pdflib =
  PDFRStreamForBuffer :: "buffer option \<Rightarrow> jsthrown + 'rs"
  createWriterToModify :: "'rs \<Rightarrow> jsthrown + 'wr"
  appendPDFPagesFromPDF :: "'wr \<Rightarrow> 'rs \<Rightarrow> jsthrown + 'wr"
  end_toBuffer :: "'wr \<Rightarrow> jsthrown + buffer"

text \<open>\<open>Array.prototype.shift\<close>: drops the first element, does nothing on \<open>[]\<close>.\<close>

fun shift :: "'a list \<Rightarrow> 'a list" where
  "shift [] = []"
| "shift (x # xs) = xs"

text \<open>\<open>buffers.forEach(buffer => pdfWriter.appendPDFPagesFromPDF(new PDFRStreamForBuffer(buffer)))\<close>\<close>

fun forEach_append :: "('rs, 'wr) pdflib \<Rightarrow> 'wr \<Rightarrow> buffer list \<Rightarrow> jsthrown + 'wr" where
  "forEach_append L pdfWriter [] = Inr pdfWriter"
| "forEach_append L pdfWriter (buffer # rest) =
     (case PDFRStreamForBuffer L (Some buffer) of
        Inl e \<Rightarrow> Inl e
      | Inr newPdfStream \<Rightarrow>
          (case appendPDFPagesFromPDF L pdfWriter newPdfStream of
             Inl e \<Rightarrow> Inl e
           | Inr pdfWriter' \<Rightarrow> forEach_append L pdfWriter' rest))"

text \<open>
  \<open>mergePDFs(buffers)\<close>: the outcome, and the contents of the caller's array
  \<open>buffers\<close> when the call ends.
\<close>

definition mergePDFs ::
  "('rs, 'wr) pdflib \<Rightarrow> buffer list \<Rightarrow> (jsthrown + buffer) \<times> buffer list" where
  "mergePDFs L buffers =
     (let first = (case buffers of [] \<Rightarrow> None | b # _ \<Rightarrow> Some b) in
      case PDFRStreamForBuffer L first of
        Inl e \<Rightarrow> (Inl e, buffers)
      | Inr firstPdfStream \<Rightarrow>
          (case createWriterToModify L firstPdfStream of
             Inl e \<Rightarrow> (Inl e, buffers)
           | Inr pdfWriter \<Rightarrow>
               (let buffers = shift buffers in
                case forEach_append L pdfWriter buffers of
                  Inl e \<Rightarrow> (Inl e, buffers)
                | Inr pdfWriter' \<Rightarrow>
                    (case end_toBuffer L pdfWriter' of
                       Inl e \<Rightarrow> (Inl e, buffers)
                     | Inr out \<Rightarrow> (Inr out, buffers)))))"

section \<open>Multi-page rendering\<close>

text \<open>
  \<open>if (x)\<close> on an optional string property: the string when it is present
  and non-empty (truthy), nothing otherwise.
\<close>

fun truthy_string :: "string option \<Rightarrow> string option" where
  "truthy_string None = None"
| "truthy_string (Some s) = (if s = [] then None else Some s)"

text \<open>
  \<open>if (page.templatePath) { await this.fromFile(page.templatePath); }
  else if (page.content) { this.data = page.content; }\<close>
\<close>

definition page_intake :: "env \<Rightarrow> ref \<Rightarrow> IPageRenderData \<Rightarrow> unit comp" where
  "page_intake E this page =
     (case truthy_string (templatePath page) of
        Some p \<Rightarrow> bindc (fromFile E p this) (\<lambda>_. returnc ())
      | None \<Rightarrow>
          (case truthy_string (content page) of
             Some c \<Rightarrow> set_data this c
           | None \<Rightarrow> returnc ()))"

text \<open>
  One iteration of \<open>for (const page of pageData)\<close>, with \<open>i\<close> already
  incremented.
\<close>

definition loop_body :: "env \<Rightarrow> ref \<Rightarrow> IPageRenderData \<Rightarrow> nat \<Rightarrow> buffer comp" where
  "loop_body E this page i =
     bindc (page_intake E this page) (\<lambda>_.
     bindc (setPdfOptions (case page_pdfOptions page of Some opts \<Rightarrow> opts | None \<Rightarrow> Map.empty)
              this) (\<lambda>_.
     generatePdf E
       (Some ([''pageNumber'' \<mapsto> JNum (int i)]
              ++ (case props page of Some ps \<Rightarrow> ps | None \<Rightarrow> Map.empty)))
       this))"

text \<open>
  The \<open>for\<close> loop: \<open>i\<close> is the counter before the iteration, \<open>buffers\<close>
  the buffers pushed so far. A throwing iteration ends the loop.
\<close>

fun for_pages ::
  "env \<Rightarrow> ref \<Rightarrow> IPageRenderData list \<Rightarrow> nat \<Rightarrow> buffer list \<Rightarrow> buffer list comp" where
  "for_pages E this [] i buffers = returnc buffers"
| "for_pages E this (page # rest) i buffers =
     bindc (loop_body E this page (i + 1)) (\<lambda>file.
     for_pages E this rest (i + 1) (buffers @ [file]))"

text \<open>
  \<open>generateMultiPagePdf(pageData)\<close>: the loop from \<open>i = 0\<close> and no buffers,
  then \<open>this.mergePDFs(buffers)\<close>, all inside one \<open>try\<close>.
\<close>

definition generateMultiPagePdf ::
  "env \<Rightarrow> ('rs, 'wr) pdflib \<Rightarrow> IPageRenderData list \<Rightarrow> ref \<Rightarrow> buffer comp" where
  "generateMultiPagePdf E L pageData this =
     try_catch
       (bindc (for_pages E this pageData 0 []) (\<lambda>buffers.
        (\<lambda>w. (fst (mergePDFs L buffers), w))))
       (\<lambda>error.
        bindc (console_error (message_or_error error)) (\<lambda>_.
        throwc (new_Error (''Generate Multi Page PDF Error: '' @ message_or_error error))))"

section \<open>The library as the interface describes it\<close>

text \<open>
  Modelled from the spec: the error with which the document-editing
  collaborator (the PDF library, which is not part of the repository) rejects
  its input.
\<close>

definition MergeError :: "string \<Rightarrow> jsthrown" where
  "MergeError msg = JsError ''MergeError'' msg"

text \<open>
  Modelled from the spec: the collaborator's "open a writable output sink
  bound to an existing base document". The writer holds the pages of the
  base document; a buffer that is not a decodable PDF is rejected.
\<close>

fun hummus_createWriterToModify :: "buffer \<Rightarrow> jsthrown + pdfpage list" where
  "hummus_createWriterToModify (PdfDocument ps) = Inr ps"
| "hummus_createWriterToModify (NotPdf s) = Inl (MergeError ''not a decodable PDF'')"

text \<open>
  Modelled from the spec: the collaborator's "append all pages from another
  PDF byte buffer onto the writer". The pages of the other document follow
  the writer's pages, in their own order; a buffer that is not a decodable
  PDF is rejected.
\<close>

fun hummus_appendPDFPagesFromPDF :: "pdfpage list \<Rightarrow> buffer \<Rightarrow> jsthrown + pdfpage list" where
  "hummus_appendPDFPagesFromPDF w (PdfDocument ps) = Inr (w @ ps)"
| "hummus_appendPDFPagesFromPDF w (NotPdf s) = Inl (MergeError ''not a decodable PDF'')"

text \<open>
  Modelled from the spec: the document-editing collaborator as a whole.
  Opening a readable document needs a buffer (there is no base document
  without one); finalising the writer yields the combined document.
\<close>

definition hummus :: "(buffer, pdfpage list) pdflib" where
  "hummus =
     \<lparr> PDFRStreamForBuffer =
         (\<lambda>b. case b of None \<Rightarrow> Inl (MergeError ''no base document'') | Some b \<Rightarrow> Inr b),
       createWriterToModify = hummus_createWriterToModify,
       appendPDFPagesFromPDF = hummus_appendPDFPagesFromPDF,
       end_toBuffer = (\<lambda>w. Inr (PdfDocument w)) \<rparr>"

section \<open>Observations on a run\<close>

text \<open>The parameter objects handed to \<open>page.evaluate\<close>, in call order.\<close>

fun evaluated :: "event list \<Rightarrow> jsobj list" where
  "evaluated [] = []"
| "evaluated (Evaluate p # evs) = p # evaluated evs"
| "evaluated (ev # evs) = evaluated evs"

text \<open>
  The parameter object the specification gives for page \<open>i\<close>: a key of the
  page's own params has the page's value; otherwise \<open>pageNumber\<close> is \<open>i\<close>;
  no other key is present.
\<close>

definition params_for_page :: "nat \<Rightarrow> IPageRenderData \<Rightarrow> jsobj" where
  "params_for_page i spec =
     (\<lambda>key. case (case props spec of None \<Rightarrow> None | Some ps \<Rightarrow> ps key) of
               Some v \<Rightarrow> Some v
             | None \<Rightarrow> if key = ''pageNumber'' then Some (JNum (int i)) else None)"

section \<open>Concrete collaborators and inputs\<close>

text \<open>The content most recently loaded into the page, from the history.\<close>

fun last_content :: "event list \<Rightarrow> string \<Rightarrow> string" where
  "last_content [] d = d"
| "last_content (SetContent d' # evs) d = last_content evs d'"
| "last_content (ev # evs) d = last_content evs d"

text \<open>A file system holding the single file \<open>cover.html\<close>.\<close>

definition files0 :: "string \<Rightarrow> jsthrown + string" where
  "files0 p = (if p = ''cover.html'' then Inr ''<h1>Cover</h1>''
               else Inl (JsError ''Error'' (''ENOENT: no such file or directory, open '' @ p)))"

text \<open>
  An engine on which every call succeeds and that prints the loaded content
  as a one-page document.
\<close>

definition env_ok :: env where
  "env_ok =
     \<lparr> readFile_result = (\<lambda>h p. files0 p),
       launch_result = (\<lambda>h. Inr ()),
       newPage_result = (\<lambda>h. Inr ()),
       evaluate_result = (\<lambda>h p. Inr ()),
       setContent_result = (\<lambda>h d. Inr ()),
       pdf_result = (\<lambda>h opts. Inr (PdfDocument [last_content h []])),
       close_result = (\<lambda>h. Inr ()) \<rparr>"

text \<open>The same engine, except that loading content is rejected.\<close>

definition env_setContent_fails :: env where
  "env_setContent_fails =
     env_ok\<lparr>setContent_result := (\<lambda>h d. Inl (JsError ''Error'' ''Navigation failed''))\<rparr>"

text \<open>The same engine over a file system on which every path is readable.\<close>

definition env_all_files :: env where
  "env_all_files = env_ok\<lparr>readFile_result := (\<lambda>h p. Inr ''<h1>File</h1>'')\<rparr>"

definition w0 :: world where
  "w0 = \<lparr> objs = (\<lambda>r. \<lparr>data = ''<h1>Hello</h1>'', pdfOptions = [''format'' \<mapsto> JStr ''A4'']\<rparr>),
          events = [] \<rparr>"

definition page_one :: IPageRenderData where
  "page_one = \<lparr> content = Some ''<p>one</p>'', templatePath = None,
                page_pdfOptions = None, props = None \<rparr>"

definition page_cover :: IPageRenderData where
  "page_cover = \<lparr> content = Some ''<p>literal</p>'', templatePath = Some ''cover.html'',
                  page_pdfOptions = Some [''format'' \<mapsto> JStr ''A5''],
                  props = Some [''title'' \<mapsto> JStr ''T''] \<rparr>"

definition page_numbered :: IPageRenderData where
  "page_numbered = \<lparr> content = Some ''<p>three</p>'', templatePath = None,
                     page_pdfOptions = None, props = Some [''pageNumber'' \<mapsto> JNum 99] \<rparr>"

definition page_missing :: IPageRenderData where
  "page_missing = \<lparr> content = None, templatePath = Some ''missing.html'',
                    page_pdfOptions = None, props = None \<rparr>"

definition page_empty_path :: IPageRenderData where
  "page_empty_path = \<lparr> content = Some ''<p>literal</p>'', templatePath = Some [],
                       page_pdfOptions = None, props = None \<rparr>"

section \<open>Unfolding the model\<close>

lemmas comp_defs = returnc_def throwc_def bindc_def try_catch_def call_def
  get_data_def get_pdfOptions_def set_data_def set_pdfOptions_def console_error_def

lemmas collaborator_defs = fs_promises_readFile_def puppeteer_launch_def browser_newPage_def
  page_evaluate_def page_setContent_def page_pdf_def browser_close_def

lemmas method_defs = generateMultiPagePdf_def loop_body_def page_intake_def fromFile_def
  setPdfOptions_def fromContent_def generatePdf_def mergePDFs_def

lemmas fixture_defs = env_ok_def env_setContent_fails_def env_all_files_def files0_def w0_def
  page_one_def page_cover_def page_numbered_def page_missing_def page_empty_path_def hummus_def

section \<open>Construction and the setters\<close>

text \<open>
  C8: a generator constructed without a format has empty \<open>data\<close> and the
  options \<open>{format: "A4"}\<close>; \<open>fromContent\<close> replaces \<open>data\<close> and nothing
  else, \<open>setPdfOptions\<close> replaces the whole options object and nothing else
  (the previous options do not survive in any key), and both return \<open>this\<close>.
\<close>

theorem fresh_generator_and_setters:
  "fst (PDFGenerator_constructor None this w) = Inr this
   \<and> data (objs (snd (PDFGenerator_constructor None this w)) this) = []
   \<and> pdfOptions (objs (snd (PDFGenerator_constructor None this w)) this)
       = [''format'' \<mapsto> JStr ''A4'']
   \<and> fromContent d this w
       = (Inr this, w\<lparr>objs := (objs w)(this := (objs w this)\<lparr>data := d\<rparr>)\<rparr>)
   \<and> setPdfOptions opts this w
       = (Inr this, w\<lparr>objs := (objs w)(this := (objs w this)\<lparr>pdfOptions := opts\<rparr>)\<rparr>)"
  by (simp add: PDFGenerator_constructor_def fromContent_def setPdfOptions_def comp_defs)

section \<open>File intake\<close>

lemma fromFile_fail:
  assumes "readFile_result E (events w) p = Inl e"
  shows "fromFile E p this w =
           (Inl (new_Error (''Error reading file at path: '' @ [CHR 0x22] @ p
                            @ [CHR 0x22, CHR 0x0A] @ toString e)),
            w\<lparr>events := events w @ [ReadFile p, ConsoleError (message_or_error e)]\<rparr>)"
  using assms by (simp add: fromFile_def comp_defs collaborator_defs)

lemma fromFile_ok:
  assumes "readFile_result E (events w) p = Inr s"
  shows "fromFile E p this w =
           (Inr this, w\<lparr>objs := (objs w)(this := (objs w this)\<lparr>data := s\<rparr>),
                        events := events w @ [ReadFile p]\<rparr>)"
  using assms by (simp add: fromFile_def comp_defs collaborator_defs)

text \<open>
  C4: when reading the file at \<open>p\<close> throws \<open>e\<close>, \<open>fromFile(p)\<close> throws an
  \<open>Error\<close> whose message is \<open>Error reading file at path: "p"\<close>, a newline and
  the string form of \<open>e\<close>; so the message contains the path and the
  underlying failure.
\<close>

theorem fromFile_error_names_path:
  assumes "readFile_result E (events w) p = Inl e"
  shows "\<exists>msg. fst (fromFile E p this w) = Inl (JsError ''Error'' msg)
           \<and> msg = ''Error reading file at path: '' @ [CHR 0x22] @ p
                     @ [CHR 0x22, CHR 0x0A] @ toString e
           \<and> sublist p msg \<and> sublist (toString e) msg"
proof -
  let ?pre = "''Error reading file at path: '' @ [CHR 0x22]"
  let ?msg = "?pre @ p @ [CHR 0x22, CHR 0x0A] @ toString e"
  have "fst (fromFile E p this w) = Inl (JsError ''Error'' ?msg)"
    using fromFile_fail [OF assms] by (simp add: new_Error_def)
  moreover have "sublist p ?msg"
    unfolding sublist_def
    by (rule exI [of _ ?pre], rule exI [of _ "[CHR 0x22, CHR 0x0A] @ toString e"]) simp
  moreover have "sublist (toString e) ?msg"
    unfolding sublist_def
    by (rule exI [of _ "?pre @ p @ [CHR 0x22, CHR 0x0A]"], rule exI [of _ "[]"]) simp
  ultimately show ?thesis by simp
qed

theorem fromFile_error_names_path_witness:
  "readFile_result env_ok (events w0) ''/nonexistent/path.html''
     = Inl (JsError ''Error'' ''ENOENT: no such file or directory, open /nonexistent/path.html'')
   \<and> (\<exists>msg. fst (fromFile env_ok ''/nonexistent/path.html'' 0 w0) = Inl (JsError ''Error'' msg)
         \<and> sublist ''/nonexistent/path.html'' msg
         \<and> sublist ''Error: ENOENT: no such file or directory, open /nonexistent/path.html'' msg)"
proof -
  have h: "readFile_result env_ok (events w0) ''/nonexistent/path.html''
     = Inl (JsError ''Error'' ''ENOENT: no such file or directory, open /nonexistent/path.html'')"
    by (simp add: env_ok_def files0_def)
  from fromFile_error_names_path [OF h, of 0] show ?thesis
    using h by auto
qed

text \<open>
  C10: when reading the file at \<open>p\<close> throws, \<open>fromFile(p)\<close> throws and leaves
  every object as it was; in particular \<open>data\<close> and \<open>pdfOptions\<close> of \<open>this\<close>
  keep their values.
\<close>

theorem fromFile_failure_keeps_state:
  assumes "readFile_result E (events w) p = Inl e"
  shows "(\<exists>e'. fst (fromFile E p this w) = Inl e')
         \<and> objs (snd (fromFile E p this w)) = objs w
         \<and> data (objs (snd (fromFile E p this w)) this) = data (objs w this)
         \<and> pdfOptions (objs (snd (fromFile E p this w)) this) = pdfOptions (objs w this)"
  using fromFile_fail [OF assms] by simp

theorem fromFile_failure_keeps_state_witness:
  "readFile_result env_ok (events w0) ''missing.html''
     = Inl (JsError ''Error'' ''ENOENT: no such file or directory, open missing.html'')
   \<and> data (objs (snd (fromFile env_ok ''missing.html'' 0 w0)) 0) = ''<h1>Hello</h1>''
   \<and> pdfOptions (objs (snd (fromFile env_ok ''missing.html'' 0 w0)) 0) ''format''
       = Some (JStr ''A4'')"
proof -
  have h: "readFile_result env_ok (events w0) ''missing.html''
     = Inl (JsError ''Error'' ''ENOENT: no such file or directory, open missing.html'')"
    by (simp add: env_ok_def files0_def)
  from fromFile_failure_keeps_state [OF h, of 0] show ?thesis
    using h by (simp add: w0_def)
qed

section \<open>Merging\<close>

lemma forEach_append_hummus:
  "forEach_append hummus w (map PdfDocument docs) = Inr (w @ concat docs)"
  by (induction docs arbitrary: w) (simp_all add: hummus_def)

lemma mergePDFs_empty_propagates:
  assumes "PDFRStreamForBuffer L None = Inl e"
  shows "mergePDFs L [] = (Inl e, [])"
  using assms by (simp add: mergePDFs_def)

text \<open>
  C3: on the empty list \<open>mergePDFs\<close> hands \<open>undefined\<close> to the library as the
  base document, the library rejects it, and the call ends with that
  merge error; no buffer is returned.
\<close>

theorem mergePDFs_empty_throws:
  "mergePDFs hummus [] = (Inl (MergeError ''no base document''), [])
   \<and> (\<forall>out. fst (mergePDFs hummus []) \<noteq> Inr out)"
  by (simp add: mergePDFs_empty_propagates hummus_def)

text \<open>
  C5: for a non-empty list of PDF documents, \<open>mergePDFs\<close> returns the document
  whose pages are the pages of the first, then those of the second, and so
  on, each document's pages in their own order; its page count is the sum of
  the page counts.
\<close>

theorem mergePDFs_page_sequence:
  assumes "docs \<noteq> []"
  shows "fst (mergePDFs hummus (map PdfDocument docs)) = Inr (PdfDocument (concat docs))
         \<and> length (concat docs) = sum_list (map length docs)"
proof -
  from assms obtain ps pss where d: "docs = ps # pss" by (cases docs) auto
  have "forEach_append hummus ps (map PdfDocument pss) = Inr (ps @ concat pss)"
    by (rule forEach_append_hummus)
  then have "fst (mergePDFs hummus (map PdfDocument docs)) = Inr (PdfDocument (concat docs))"
    by (simp add: d mergePDFs_def hummus_def)
  then show ?thesis by (simp add: length_concat)
qed

theorem mergePDFs_page_sequence_witness:
  "[[''a1'', ''a2''], [''b1''], [''c1'', ''c2'', ''c3'']] \<noteq> []
   \<and> fst (mergePDFs hummus
            [PdfDocument [''a1'', ''a2''], PdfDocument [''b1''], PdfDocument [''c1'', ''c2'', ''c3'']])
       = Inr (PdfDocument [''a1'', ''a2'', ''b1'', ''c1'', ''c2'', ''c3''])
   \<and> length [''a1'', ''a2'', ''b1'', ''c1'', ''c2'', ''c3''] = (2::nat) + 1 + 3"
  using mergePDFs_page_sequence [of "[[''a1'', ''a2''], [''b1''], [''c1'', ''c2'', ''c3'']]"]
  by simp

text \<open>
  C9: when \<open>mergePDFs(buffers)\<close> returns, the caller's array is the result of
  \<open>shift\<close> on it: its first element is gone and its length is one less. (On
  the empty array there is no first element, and by C3 the call does not
  return.)
\<close>

theorem mergePDFs_shifts_input:
  assumes "mergePDFs L buffers = (Inr out, buffers')"
  shows "buffers' = shift buffers
         \<and> (buffers \<noteq> [] \<longrightarrow>
              (\<exists>first. buffers = first # buffers') \<and> Suc (length buffers') = length buffers)"
proof -
  have "buffers' = shift buffers"
    using assms by (auto simp: mergePDFs_def Let_def split: sum.splits)
  then show ?thesis by (cases buffers) auto
qed

theorem mergePDFs_shifts_input_witness:
  "mergePDFs hummus [PdfDocument [''a1''], PdfDocument [''b1'']]
     = (Inr (PdfDocument [''a1'', ''b1'']), [PdfDocument [''b1'']])
   \<and> [PdfDocument [''b1'']] = shift [PdfDocument [''a1''], PdfDocument [''b1'']]
   \<and> [PdfDocument [''a1''], PdfDocument [''b1'']] \<noteq> []
   \<and> Suc (length [PdfDocument [''b1'']]) = length [PdfDocument [''a1''], PdfDocument [''b1'']]"
proof -
  have h: "mergePDFs hummus [PdfDocument [''a1''], PdfDocument [''b1'']]
     = (Inr (PdfDocument [''a1'', ''b1'']), [PdfDocument [''b1'']])"
    by (simp add: mergePDFs_def hummus_def)
  from mergePDFs_shifts_input [OF h] show ?thesis
    using h by simp
qed

section \<open>Single-page rendering\<close>

lemma evaluated_append: "evaluated (xs @ ys) = evaluated xs @ evaluated ys"
  by (induction xs rule: evaluated.induct) simp_all

lemma generatePdf_error_shape:
  assumes "fst (generatePdf E pa this w) = Inl e"
  shows "\<exists>m. e = new_Error (''Generate PDF Error: '' @ m)"
  using assms
  by (auto simp: generatePdf_def comp_defs collaborator_defs Let_def split: sum.splits prod.splits)

lemma generatePdf_evaluated:
  "(evaluated (events (snd (generatePdf E (Some p) this w))) = evaluated (events w) @ [p])
   \<or> (evaluated (events (snd (generatePdf E (Some p) this w))) = evaluated (events w)
       \<and> (\<exists>e. fst (generatePdf E (Some p) this w) = Inl e))"
  by (auto simp: generatePdf_def comp_defs collaborator_defs Let_def evaluated_append
           split: sum.splits prod.splits)

lemma generatePdf_events:
  "\<exists>es. events (snd (generatePdf E pa this w)) = events w @ es
        \<and> (\<forall>d. SetContent d \<in> set es \<longrightarrow> d = data (objs w this))"
  by (auto simp: generatePdf_def comp_defs collaborator_defs Let_def split: sum.splits prod.splits)

lemma generatePdf_returns:
  assumes "generatePdf E (Some p) this w = (Inr f, w')"
  shows "w' = w\<lparr>events := events w @ [Launch, NewPage, Evaluate p, SetContent (data (objs w this)),
                                       Pdf (pdfOptions (objs w this)), Close]\<rparr>
         \<and> pdf_result E (events w @ [Launch, NewPage, Evaluate p, SetContent (data (objs w this))])
              (pdfOptions (objs w this)) = Inr f"
  using assms
  by (auto simp: generatePdf_def comp_defs collaborator_defs Let_def split: sum.splits prod.splits)

lemma generatePdf_extends: "prefix (events w) (events (snd (generatePdf E pa this w)))"
  using generatePdf_events [of E pa this w] by (auto simp: prefix_def)

text \<open>
  A failed \<open>generatePdf\<close> has called \<open>browser.close()\<close> only when that call
  itself is what failed.
\<close>

lemma generatePdf_failure_without_close:
  assumes "fst (generatePdf E pa this w) = Inl e"
      and "Close \<in> set (drop (length (events w)) (events (snd (generatePdf E pa this w))))"
  shows "\<exists>h c. close_result E h = Inl c"
  using assms
  by (auto simp: generatePdf_def comp_defs collaborator_defs Let_def split: sum.splits prod.splits)

text \<open>
  C1 (fails on the code): on an engine where the session is launched and
  \<open>page.setContent\<close> then rejects, \<open>generatePdf\<close> throws its
  \<open>Generate PDF Error\<close> and \<open>browser.close()\<close> has not been called: the
  session is left open.
\<close>

theorem generatePdf_failure_leaves_session_open:
  "generatePdf env_setContent_fails None 0 w0 =
     (Inl (new_Error ''Generate PDF Error: Navigation failed''),
      w0\<lparr>events := [Launch, NewPage, Evaluate [''pageNumber'' \<mapsto> JNum 1],
                     SetContent ''<h1>Hello</h1>'', ConsoleError ''Navigation failed'']\<rparr>)
   \<and> Launch \<in> set (events (snd (generatePdf env_setContent_fails None 0 w0)))
   \<and> Close \<notin> set (events (snd (generatePdf env_setContent_fails None 0 w0)))"
  by (simp add: generatePdf_def comp_defs collaborator_defs env_setContent_fails_def env_ok_def w0_def)

section \<open>Multi-page rendering: the loop\<close>

lemma spread_is_params_for_page:
  "[''pageNumber'' \<mapsto> JNum (int i)] ++ (case props spec of Some ps \<Rightarrow> ps | None \<Rightarrow> Map.empty)
     = params_for_page i spec"
  by (auto simp: params_for_page_def map_add_def fun_eq_iff split: option.splits)

lemma page_intake_outcome:
  "(\<exists>w1. page_intake E this page w = (Inr (), w1) \<and> evaluated (events w1) = evaluated (events w))
   \<or> (\<exists>m w1. page_intake E this page w = (Inl (new_Error (''Error reading file at path: '' @ m)), w1)
         \<and> evaluated (events w1) = evaluated (events w))"
proof (cases "truthy_string (templatePath page)")
  case None
  then show ?thesis
    by (cases "truthy_string (content page)") (auto simp: page_intake_def comp_defs)
next
  case (Some p)
  show ?thesis
  proof (cases "readFile_result E (events w) p")
    case (Inl e)
    from fromFile_fail [OF this] Some show ?thesis
      by (auto simp: page_intake_def bindc_def evaluated_append)
  next
    case (Inr s)
    from fromFile_ok [OF this] Some show ?thesis
      by (auto simp: page_intake_def bindc_def returnc_def evaluated_append)
  qed
qed

lemma loop_body_after_intake:
  assumes "page_intake E this page w = (Inr (), w1)"
  shows "loop_body E this page i w =
           generatePdf E (Some (params_for_page i page)) this
             (w1\<lparr>objs := (objs w1)(this := (objs w1 this)\<lparr>pdfOptions :=
                    (case page_pdfOptions page of Some opts \<Rightarrow> opts | None \<Rightarrow> Map.empty)\<rparr>)\<rparr>)"
  unfolding loop_body_def spread_is_params_for_page
  by (simp add: assms bindc_def setPdfOptions_def set_pdfOptions_def returnc_def)

lemma loop_body_intake_fails:
  assumes "page_intake E this page w = (Inl e, w1)"
  shows "loop_body E this page i w = (Inl e, w1)"
  by (simp add: loop_body_def assms bindc_def)

lemma loop_body_error_shape:
  assumes "fst (loop_body E this page i w) = Inl e"
  shows "(\<exists>m. e = new_Error (''Error reading file at path: '' @ m))
         \<or> (\<exists>m. e = new_Error (''Generate PDF Error: '' @ m))"
proof -
  from page_intake_outcome [of E this page w] show ?thesis
  proof (elim disjE exE conjE)
    fix w1 assume "page_intake E this page w = (Inr (), w1)"
    from assms [unfolded loop_body_after_intake [OF this]] generatePdf_error_shape
    show ?thesis by blast
  next
    fix m w1
    assume "page_intake E this page w = (Inl (new_Error (''Error reading file at path: '' @ m)), w1)"
    from assms [unfolded loop_body_intake_fails [OF this]] show ?thesis by auto
  qed
qed

lemma loop_body_evaluated:
  "(evaluated (events (snd (loop_body E this page i w)))
      = evaluated (events w) @ [params_for_page i page])
   \<or> (evaluated (events (snd (loop_body E this page i w))) = evaluated (events w)
       \<and> (\<exists>e. fst (loop_body E this page i w) = Inl e))"
proof -
  from page_intake_outcome [of E this page w] show ?thesis
  proof (elim disjE exE conjE)
    fix w1 assume a: "page_intake E this page w = (Inr (), w1)"
      and b: "evaluated (events w1) = evaluated (events w)"
    let ?w' = "w1\<lparr>objs := (objs w1)(this := (objs w1 this)\<lparr>pdfOptions :=
                    (case page_pdfOptions page of Some opts \<Rightarrow> opts | None \<Rightarrow> Map.empty)\<rparr>)\<rparr>"
    have "evaluated (events ?w') = evaluated (events w)" using b by simp
    with generatePdf_evaluated [of E "params_for_page i page" this ?w'] show ?thesis
      unfolding loop_body_after_intake [OF a] by simp
  next
    fix m w1
    assume a: "page_intake E this page w = (Inl (new_Error (''Error reading file at path: '' @ m)), w1)"
      and b: "evaluated (events w1) = evaluated (events w)"
    show ?thesis unfolding loop_body_intake_fails [OF a] using b by simp
  qed
qed

lemma for_pages_evaluated:
  "\<exists>n. n \<le> length pages
     \<and> evaluated (events (snd (for_pages E this pages i bufs w)))
         = evaluated (events w)
           @ map (\<lambda>(k, spec). params_for_page k spec) (take n (enumerate (Suc i) pages))
     \<and> ((\<exists>b. fst (for_pages E this pages i bufs w) = Inr b) \<longrightarrow> n = length pages)"
proof (induction pages arbitrary: i bufs w)
  case Nil
  show ?case by (simp add: returnc_def)
next
  case (Cons page rest)
  obtain r w1 where lb: "loop_body E this page (Suc i) w = (r, w1)"
    by (cases "loop_body E this page (Suc i) w")
  show ?case
  proof (cases r)
    case (Inl e)
    then have fp: "for_pages E this (page # rest) i bufs w = (Inl e, w1)"
      by (simp add: bindc_def lb)
    from loop_body_evaluated [of E this page "Suc i" w]
    have "evaluated (events w1) = evaluated (events w) @ [params_for_page (Suc i) page]
          \<or> evaluated (events w1) = evaluated (events w)" by (auto simp: lb)
    then show ?thesis
    proof
      assume "evaluated (events w1) = evaluated (events w) @ [params_for_page (Suc i) page]"
      then show ?thesis unfolding fp by (intro exI [of _ "Suc 0"]) simp
    next
      assume "evaluated (events w1) = evaluated (events w)"
      then show ?thesis unfolding fp by (intro exI [of _ 0]) simp
    qed
  next
    case (Inr f)
    then have fp: "for_pages E this (page # rest) i bufs w
                     = for_pages E this rest (Suc i) (bufs @ [f]) w1"
      by (simp add: bindc_def lb)
    from loop_body_evaluated [of E this page "Suc i" w] Inr
    have ev1: "evaluated (events w1) = evaluated (events w) @ [params_for_page (Suc i) page]"
      by (auto simp: lb)
    from Cons.IH [of "Suc i" "bufs @ [f]" w1] obtain n where
      n: "n \<le> length rest"
      "evaluated (events (snd (for_pages E this rest (Suc i) (bufs @ [f]) w1)))
         = evaluated (events w1)
           @ map (\<lambda>(k, spec). params_for_page k spec) (take n (enumerate (Suc (Suc i)) rest))"
      "(\<exists>b. fst (for_pages E this rest (Suc i) (bufs @ [f]) w1) = Inr b) \<longrightarrow> n = length rest"
      by blast
    show ?thesis unfolding fp
      by (intro exI [of _ "Suc n"]) (use n in \<open>simp add: ev1\<close>)
  qed
qed

lemma for_pages_append:
  "for_pages E this (xs @ ys) i bufs w =
     (case for_pages E this xs i bufs w of
        (Inl e, w') \<Rightarrow> (Inl e, w')
      | (Inr b, w') \<Rightarrow> for_pages E this ys (i + length xs) b w')"
proof (induction xs arbitrary: i bufs w)
  case Nil
  show ?case by (simp add: returnc_def)
next
  case (Cons x xs)
  show ?case
    by (simp add: bindc_def Cons.IH split: prod.splits sum.splits)
qed

lemma page_intake_returns:
  assumes "page_intake E this page w = (Inr (), w1)"
  shows "\<exists>es d.
           (case truthy_string (templatePath page) of
              Some p \<Rightarrow> es = [ReadFile p] \<and> readFile_result E (events w) p = Inr d
            | None \<Rightarrow> es = [] \<and> d = (case truthy_string (content page) of
                                         Some c \<Rightarrow> c | None \<Rightarrow> data (objs w this)))
           \<and> events w1 = events w @ es \<and> data (objs w1 this) = d"
proof (cases "truthy_string (templatePath page)")
  case None
  with assms show ?thesis
    by (cases "truthy_string (content page)") (auto simp: page_intake_def comp_defs)
next
  case (Some p)
  show ?thesis
  proof (cases "readFile_result E (events w) p")
    case (Inl e)
    from fromFile_fail [OF this, of this] Some assms show ?thesis
      by (simp add: page_intake_def bindc_def)
  next
    case (Inr s)
    from fromFile_ok [OF this, of this] Some assms Inr show ?thesis
      by (auto simp: page_intake_def bindc_def returnc_def)
  qed
qed

lemma loop_body_returns:
  assumes "loop_body E this page i w = (Inr f, w')"
  shows "\<exists>es d.
           (case truthy_string (templatePath page) of
              Some p \<Rightarrow> es = [ReadFile p] \<and> readFile_result E (events w) p = Inr d
            | None \<Rightarrow> es = [] \<and> d = (case truthy_string (content page) of
                                         Some c \<Rightarrow> c | None \<Rightarrow> data (objs w this)))
           \<and> events w' = events w @ es
                @ [Launch, NewPage, Evaluate (params_for_page i page), SetContent d,
                   Pdf (case page_pdfOptions page of Some opts \<Rightarrow> opts | None \<Rightarrow> Map.empty), Close]
           \<and> pdf_result E (events w @ es
                @ [Launch, NewPage, Evaluate (params_for_page i page), SetContent d])
                (case page_pdfOptions page of Some opts \<Rightarrow> opts | None \<Rightarrow> Map.empty) = Inr f"
proof -
  obtain r w1 where pi: "page_intake E this page w = (r, w1)"
    by (cases "page_intake E this page w")
  show ?thesis
  proof (cases r)
    case (Inl e)
    with loop_body_intake_fails [of E this page w e w1 i] pi assms show ?thesis by simp
  next
    case (Inr u)
    with pi have pi': "page_intake E this page w = (Inr (), w1)" by simp
    let ?opts = "case page_pdfOptions page of Some opts \<Rightarrow> opts | None \<Rightarrow> Map.empty"
    let ?w2 = "w1\<lparr>objs := (objs w1)(this := (objs w1 this)\<lparr>pdfOptions := ?opts\<rparr>)\<rparr>"
    from page_intake_returns [OF pi'] obtain es d where
      ed: "case truthy_string (templatePath page) of
              Some p \<Rightarrow> es = [ReadFile p] \<and> readFile_result E (events w) p = Inr d
            | None \<Rightarrow> es = [] \<and> d = (case truthy_string (content page) of
                                         Some c \<Rightarrow> c | None \<Rightarrow> data (objs w this))"
      and ev: "events w1 = events w @ es" and dt: "data (objs w1 this) = d"
      by blast
    from assms have "generatePdf E (Some (params_for_page i page)) this ?w2 = (Inr f, w')"
      unfolding loop_body_after_intake [OF pi'] .
    from generatePdf_returns [OF this] have
      "events w' = events w @ es
                @ [Launch, NewPage, Evaluate (params_for_page i page), SetContent d, Pdf ?opts, Close]"
      "pdf_result E (events w @ es
                @ [Launch, NewPage, Evaluate (params_for_page i page), SetContent d]) ?opts = Inr f"
      by (simp_all add: ev dt)
    with ed show ?thesis by blast
  qed
qed

lemma for_pages_snoc:
  "for_pages E this (pre @ [page]) i bufs w =
     (case for_pages E this pre i bufs w of
        (Inl e, w1) \<Rightarrow> (Inl e, w1)
      | (Inr b, w1) \<Rightarrow>
          (case loop_body E this page (Suc (i + length pre)) w1 of
             (Inl e, w2) \<Rightarrow> (Inl e, w2)
           | (Inr f, w2) \<Rightarrow> (Inr (b @ [f]), w2)))"
  by (simp add: for_pages_append bindc_def returnc_def split: prod.splits sum.splits)

lemma page_intake_extends: "prefix (events w) (events (snd (page_intake E this page w)))"
proof (cases "truthy_string (templatePath page)")
  case None
  then show ?thesis
    by (cases "truthy_string (content page)") (auto simp: page_intake_def comp_defs)
next
  case (Some p)
  show ?thesis
  proof (cases "readFile_result E (events w) p")
    case (Inl e)
    from fromFile_fail [OF this, of this] Some show ?thesis
      by (simp add: page_intake_def bindc_def)
  next
    case (Inr s)
    from fromFile_ok [OF this, of this] Some show ?thesis
      by (simp add: page_intake_def bindc_def returnc_def)
  qed
qed

lemma loop_body_extends: "prefix (events w) (events (snd (loop_body E this page i w)))"
proof -
  obtain r w1 where pi: "page_intake E this page w = (r, w1)"
    by (cases "page_intake E this page w")
  from page_intake_extends [of w E this page] pi have p1: "prefix (events w) (events w1)" by simp
  show ?thesis
  proof (cases r)
    case (Inl e)
    with loop_body_intake_fails [of E this page w e w1 i] pi p1 show ?thesis by simp
  next
    case (Inr u)
    with pi have pi': "page_intake E this page w = (Inr (), w1)" by simp
    let ?w2 = "w1\<lparr>objs := (objs w1)(this := (objs w1 this)\<lparr>pdfOptions :=
                 (case page_pdfOptions page of Some opts \<Rightarrow> opts | None \<Rightarrow> Map.empty)\<rparr>)\<rparr>"
    from generatePdf_extends [of ?w2 E "Some (params_for_page i page)" this]
    have "prefix (events w1) (events (snd (loop_body E this page i w)))"
      unfolding loop_body_after_intake [OF pi'] by simp
    with p1 show ?thesis by (rule prefix_order.trans)
  qed
qed

lemma for_pages_extends:
  "prefix (events w) (events (snd (for_pages E this pages i bufs w)))"
proof (induction pages arbitrary: i bufs w)
  case Nil
  show ?case by (simp add: returnc_def)
next
  case (Cons page rest)
  obtain r w1 where lb: "loop_body E this page (Suc i) w = (r, w1)"
    by (cases "loop_body E this page (Suc i) w")
  from loop_body_extends [of w E this page "Suc i"] lb have p1: "prefix (events w) (events w1)"
    by simp
  show ?case
  proof (cases r)
    case (Inl e)
    with lb p1 show ?thesis by (simp add: bindc_def)
  next
    case (Inr f)
    with lb have "for_pages E this (page # rest) i bufs w
                    = for_pages E this rest (Suc i) (bufs @ [f]) w1"
      by (simp add: bindc_def)
    with Cons.IH [of w1 "Suc i" "bufs @ [f]"] p1 show ?thesis
      by (auto intro: prefix_order.trans)
  qed
qed

lemma for_pages_buffers:
  assumes "for_pages E this pages i bufs w = (Inr out, w')"
  shows "\<exists>bs. out = bufs @ bs \<and> length bs = length pages"
  using assms
proof (induction pages arbitrary: i bufs w)
  case Nil
  then show ?case by (simp add: returnc_def)
next
  case (Cons page rest)
  obtain r w1 where lb: "loop_body E this page (Suc i) w = (r, w1)"
    by (cases "loop_body E this page (Suc i) w")
  show ?case
  proof (cases r)
    case (Inl e)
    with lb Cons.prems show ?thesis by (simp add: bindc_def)
  next
    case (Inr f)
    with lb Cons.prems have "for_pages E this rest (Suc i) (bufs @ [f]) w1 = (Inr out, w')"
      by (simp add: bindc_def)
    from Cons.IH [OF this] obtain bs where "out = (bufs @ [f]) @ bs" "length bs = length rest"
      by blast
    then show ?thesis by (intro exI [of _ "f # bs"]) simp
  qed
qed

lemma generateMultiPagePdf_extends_loop:
  "prefix (events (snd (for_pages E this pageData 0 [] w)))
          (events (snd (generateMultiPagePdf E L pageData this w)))"
  by (cases "for_pages E this pageData 0 [] w"; cases "fst (for_pages E this pageData 0 [] w)";
      cases "fst (mergePDFs L (projr (fst (for_pages E this pageData 0 [] w))))")
     (simp_all add: generateMultiPagePdf_def comp_defs)

lemma generateMultiPagePdf_returns:
  assumes "fst (generateMultiPagePdf E L pageData this w) = Inr out"
  shows "\<exists>bufs. fst (for_pages E this pageData 0 [] w) = Inr bufs \<and> fst (mergePDFs L bufs) = Inr out"
  using assms
  by (cases "for_pages E this pageData 0 [] w"; cases "fst (for_pages E this pageData 0 [] w)";
      cases "fst (mergePDFs L (projr (fst (for_pages E this pageData 0 [] w))))")
     (simp_all add: generateMultiPagePdf_def comp_defs)

section \<open>Multi-page rendering: the claims\<close>

text \<open>
  The parameter objects that \<open>generateMultiPagePdf\<close> hands to the engine are, in
  order, those of pages \<open>1, 2, \<dots>\<close> of the list: of all pages when the call
  returns, and of the pages up to the failing one otherwise.
\<close>

lemma generateMultiPagePdf_evaluated_params:
  "\<exists>n. n \<le> length pageData
     \<and> evaluated (events (snd (generateMultiPagePdf E L pageData this w)))
         = evaluated (events w)
           @ map (\<lambda>(i, spec). params_for_page i spec) (take n (enumerate 1 pageData))
     \<and> ((\<exists>b. fst (generateMultiPagePdf E L pageData this w) = Inr b) \<longrightarrow> n = length pageData)"
proof -
  obtain r w1 where fp: "for_pages E this pageData 0 [] w = (r, w1)"
    by (cases "for_pages E this pageData 0 [] w")
  from for_pages_evaluated [of pageData E this 0 "[]" w] obtain n where
    n: "n \<le> length pageData"
       "evaluated (events w1) = evaluated (events w)
          @ map (\<lambda>(i, spec). params_for_page i spec) (take n (enumerate 1 pageData))"
       "(\<exists>b. r = Inr b) \<longrightarrow> n = length pageData"
    by (auto simp: fp)
  have ev: "evaluated (events (snd (generateMultiPagePdf E L pageData this w)))
              = evaluated (events w1)"
    by (cases r; cases "fst (mergePDFs L (projr r))")
       (simp_all add: generateMultiPagePdf_def comp_defs fp evaluated_append)
  have ok: "(\<exists>b. fst (generateMultiPagePdf E L pageData this w) = Inr b) \<longrightarrow> (\<exists>b. r = Inr b)"
    by (cases r) (simp_all add: generateMultiPagePdf_def comp_defs fp)
  show ?thesis
  proof (intro exI [of _ n] conjI)
    show "n \<le> length pageData" by (rule n(1))
    show "evaluated (events (snd (generateMultiPagePdf E L pageData this w)))
         = evaluated (events w)
           @ map (\<lambda>(i, spec). params_for_page i spec) (take n (enumerate 1 pageData))"
      unfolding ev by (rule n(2))
    show "(\<exists>b. fst (generateMultiPagePdf E L pageData this w) = Inr b) \<longrightarrow> n = length pageData"
      using ok n(3) by blast
  qed
qed

text \<open>
  C2: when the loop of \<open>generateMultiPagePdf\<close> has rendered the pages up to
  and including \<open>page\<close>, the page at 1-based index \<open>i = length pre + 1\<close>, then
  the iteration for \<open>page\<close> is, after the pages before it: the file read if
  \<open>templatePath\<close> is set, and then one engine session in which
  \<open>params_for_page i page\<close> (that is \<open>{pageNumber: i, ...props}\<close>, the page's
  own keys overriding \<open>pageNumber\<close>) is injected, the page's content is loaded
  and the document is printed with the page's options. The buffer of that
  print is the \<open>i\<close>-th buffer, the whole call on any list continuing with
  further pages starts with this trace, and when it returns, its result is
  the merge of these buffers followed by one buffer for each further page.
\<close>

theorem generateMultiPagePdf_renders_page_with_params:
  assumes "for_pages E this (pre @ [page]) 0 [] w = (Inr bufs', w2)"
  shows "\<exists>bufs w1 es d f.
           for_pages E this pre 0 [] w = (Inr bufs, w1)
         \<and> (case truthy_string (templatePath page) of
              Some p \<Rightarrow> es = [ReadFile p] \<and> readFile_result E (events w1) p = Inr d
            | None \<Rightarrow> es = [] \<and> d = (case truthy_string (content page) of
                                         Some c \<Rightarrow> c | None \<Rightarrow> data (objs w1 this)))
         \<and> events w2 = events w1 @ es
              @ [Launch, NewPage, Evaluate (params_for_page (Suc (length pre)) page), SetContent d,
                 Pdf (case page_pdfOptions page of Some opts \<Rightarrow> opts | None \<Rightarrow> Map.empty), Close]
         \<and> pdf_result E (events w1 @ es
              @ [Launch, NewPage, Evaluate (params_for_page (Suc (length pre)) page), SetContent d])
              (case page_pdfOptions page of Some opts \<Rightarrow> opts | None \<Rightarrow> Map.empty) = Inr f
         \<and> bufs' = bufs @ [f]
         \<and> prefix (events w2) (events (snd (generateMultiPagePdf E L (pre @ page # rest) this w)))
         \<and> (\<forall>out. fst (generateMultiPagePdf E L (pre @ page # rest) this w) = Inr out
               \<longrightarrow> (\<exists>bs. length bs = length rest \<and> fst (mergePDFs L (bufs' @ bs)) = Inr out))"
proof -
  obtain r w1 where fp: "for_pages E this pre 0 [] w = (r, w1)"
    by (cases "for_pages E this pre 0 [] w")
  from assms fp obtain bufs where r: "r = Inr bufs"
    by (cases r) (simp_all add: for_pages_snoc)
  from assms fp r obtain f where lb: "loop_body E this page (Suc (length pre)) w1 = (Inr f, w2)"
    and b': "bufs' = bufs @ [f]"
    by (auto simp: for_pages_snoc split: prod.splits sum.splits)
  from loop_body_returns [OF lb] obtain es d where
    ed: "case truthy_string (templatePath page) of
              Some p \<Rightarrow> es = [ReadFile p] \<and> readFile_result E (events w1) p = Inr d
            | None \<Rightarrow> es = [] \<and> d = (case truthy_string (content page) of
                                         Some c \<Rightarrow> c | None \<Rightarrow> data (objs w1 this))"
    and ev: "events w2 = events w1 @ es
              @ [Launch, NewPage, Evaluate (params_for_page (Suc (length pre)) page), SetContent d,
                 Pdf (case page_pdfOptions page of Some opts \<Rightarrow> opts | None \<Rightarrow> Map.empty), Close]"
    and pr: "pdf_result E (events w1 @ es
              @ [Launch, NewPage, Evaluate (params_for_page (Suc (length pre)) page), SetContent d])
              (case page_pdfOptions page of Some opts \<Rightarrow> opts | None \<Rightarrow> Map.empty) = Inr f"
    by blast
  have whole: "for_pages E this (pre @ page # rest) 0 [] w
                 = for_pages E this rest (Suc (length pre)) bufs' w2"
    using for_pages_append [of E this "pre @ [page]" rest 0 "[]" w] assms by simp
  have px: "prefix (events w2) (events (snd (generateMultiPagePdf E L (pre @ page # rest) this w)))"
  proof -
    have "prefix (events w2) (events (snd (for_pages E this (pre @ page # rest) 0 [] w)))"
      unfolding whole by (rule for_pages_extends)
    also have "prefix \<dots> (events (snd (generateMultiPagePdf E L (pre @ page # rest) this w)))"
      by (rule generateMultiPagePdf_extends_loop)
    finally show ?thesis .
  qed
  have res: "\<forall>out. fst (generateMultiPagePdf E L (pre @ page # rest) this w) = Inr out
               \<longrightarrow> (\<exists>bs. length bs = length rest \<and> fst (mergePDFs L (bufs' @ bs)) = Inr out)"
  proof (intro allI impI)
    fix out assume "fst (generateMultiPagePdf E L (pre @ page # rest) this w) = Inr out"
    from generateMultiPagePdf_returns [OF this] obtain all_bufs where
      ab: "fst (for_pages E this (pre @ page # rest) 0 [] w) = Inr all_bufs"
      and mg: "fst (mergePDFs L all_bufs) = Inr out" by blast
    from ab have "for_pages E this rest (Suc (length pre)) bufs' w2
                    = (Inr all_bufs, snd (for_pages E this rest (Suc (length pre)) bufs' w2))"
      unfolding whole by (simp add: prod_eq_iff)
    from for_pages_buffers [OF this] obtain bs where "all_bufs = bufs' @ bs" "length bs = length rest"
      by blast
    with mg show "\<exists>bs. length bs = length rest \<and> fst (mergePDFs L (bufs' @ bs)) = Inr out"
      by blast
  qed
  from fp r ed ev pr b' px res show ?thesis by blast
qed

theorem generateMultiPagePdf_renders_page_with_params_witness:
  "fst (for_pages env_ok 0 ([page_one] @ [page_cover]) 0 [] w0)
     = Inr [PdfDocument [''<p>one</p>''], PdfDocument [''<h1>Cover</h1>'']]
   \<and> events (snd (for_pages env_ok 0 ([page_one] @ [page_cover]) 0 [] w0))
       = events (snd (for_pages env_ok 0 [page_one] 0 [] w0))
         @ [ReadFile ''cover.html'', Launch, NewPage, Evaluate (params_for_page 2 page_cover),
            SetContent ''<h1>Cover</h1>'', Pdf [''format'' \<mapsto> JStr ''A5''], Close]
   \<and> params_for_page 2 page_cover ''pageNumber'' = Some (JNum 2)
   \<and> params_for_page 2 page_cover ''title'' = Some (JStr ''T'')
   \<and> params_for_page 3 page_numbered ''pageNumber'' = Some (JNum 99)
   \<and> prefix (events (snd (for_pages env_ok 0 ([page_one] @ [page_cover]) 0 [] w0)))
        (events (snd (generateMultiPagePdf env_ok hummus
                        ([page_one] @ page_cover # [page_numbered]) 0 w0)))"
proof -
  let ?r2 = "for_pages env_ok 0 ([page_one] @ [page_cover]) 0 [] w0"
  have f2: "fst ?r2 = Inr [PdfDocument [''<p>one</p>''], PdfDocument [''<h1>Cover</h1>'']]"
    by (simp add: method_defs comp_defs collaborator_defs fixture_defs)
  then have h: "?r2 = (Inr [PdfDocument [''<p>one</p>''], PdfDocument [''<h1>Cover</h1>'']], snd ?r2)"
    by (simp add: prod_eq_iff)
  from generateMultiPagePdf_renders_page_with_params [OF h, of hummus "[page_numbered]"]
  obtain bufs w1 es d f where
    a: "for_pages env_ok 0 [page_one] 0 [] w0 = (Inr bufs, w1)"
    and b: "case truthy_string (templatePath page_cover) of
              Some p \<Rightarrow> es = [ReadFile p] \<and> readFile_result env_ok (events w1) p = Inr d
            | None \<Rightarrow> es = [] \<and> d = (case truthy_string (content page_cover) of
                                         Some c \<Rightarrow> c | None \<Rightarrow> data (objs w1 0))"
    and c: "events (snd ?r2) = events w1 @ es
              @ [Launch, NewPage, Evaluate (params_for_page (Suc (length [page_one])) page_cover),
                 SetContent d,
                 Pdf (case page_pdfOptions page_cover of Some opts \<Rightarrow> opts | None \<Rightarrow> Map.empty),
                 Close]"
    and p: "prefix (events (snd ?r2))
              (events (snd (generateMultiPagePdf env_ok hummus
                              ([page_one] @ page_cover # [page_numbered]) 0 w0)))"
    by blast
  from a have w1: "w1 = snd (for_pages env_ok 0 [page_one] 0 [] w0)"
    by (metis snd_conv)
  from b have es: "es = [ReadFile ''cover.html'']" and d: "d = ''<h1>Cover</h1>''"
    by (simp_all add: page_cover_def env_ok_def files0_def)
  have o: "(case page_pdfOptions page_cover of Some opts \<Rightarrow> opts | None \<Rightarrow> Map.empty)
             = [''format'' \<mapsto> JStr ''A5'']"
    by (simp add: page_cover_def)
  have n: "Suc (length [page_one]) = 2" by simp
  have ev: "events (snd ?r2)
       = events (snd (for_pages env_ok 0 [page_one] 0 [] w0))
         @ [ReadFile ''cover.html'', Launch, NewPage, Evaluate (params_for_page 2 page_cover),
            SetContent ''<h1>Cover</h1>'', Pdf [''format'' \<mapsto> JStr ''A5''], Close]"
    using c unfolding o es d w1 n by simp
  have ps: "params_for_page 2 page_cover ''pageNumber'' = Some (JNum 2)"
    "params_for_page 2 page_cover ''title'' = Some (JStr ''T'')"
    "params_for_page 3 page_numbered ''pageNumber'' = Some (JNum 99)"
    by (simp_all add: params_for_page_def page_cover_def page_numbered_def)
  from f2 ev ps p show ?thesis by (intro conjI)
qed

text \<open>
  C6: when the pages before \<open>page\<close> have been rendered and the iteration for
  \<open>page\<close> throws \<open>e\<close> (a file-read error or a render error),
  \<open>generateMultiPagePdf\<close> throws \<open>Generate Multi Page PDF Error:\<close> followed
  by the message of \<open>e\<close>; the world is the one in which \<open>page\<close> failed plus
  the console line, whatever pages follow, and no buffer is returned.
\<close>

theorem generateMultiPagePdf_aborts_on_first_failure:
  assumes "for_pages E this pre 0 [] w = (Inr bufs, w1)"
      and "loop_body E this page (Suc (length pre)) w1 = (Inl e, w2)"
  shows "\<exists>m. e = new_Error m
            \<and> ((\<exists>t. m = ''Error reading file at path: '' @ t)
                 \<or> (\<exists>t. m = ''Generate PDF Error: '' @ t))
            \<and> generateMultiPagePdf E L (pre @ page # rest) this w
                = (Inl (new_Error (''Generate Multi Page PDF Error: '' @ m)),
                   w2\<lparr>events := events w2 @ [ConsoleError m]\<rparr>)"
proof -
  from loop_body_error_shape [of E this page "Suc (length pre)" w1 e] assms(2)
  obtain m where m: "e = new_Error m"
    "(\<exists>t. m = ''Error reading file at path: '' @ t) \<or> (\<exists>t. m = ''Generate PDF Error: '' @ t)"
    by auto
  then have ne: "m \<noteq> []" by auto
  have "for_pages E this (pre @ page # rest) 0 [] w = (Inl e, w2)"
    by (simp add: for_pages_append assms bindc_def)
  then have "generateMultiPagePdf E L (pre @ page # rest) this w
                = (Inl (new_Error (''Generate Multi Page PDF Error: '' @ m)),
                   w2\<lparr>events := events w2 @ [ConsoleError m]\<rparr>)"
    using ne by (simp add: generateMultiPagePdf_def comp_defs m(1) new_Error_def)
  with m show ?thesis by blast
qed

theorem generateMultiPagePdf_aborts_on_first_failure_witness:
  "fst (for_pages env_ok 0 [page_one] 0 [] w0) = Inr [PdfDocument [''<p>one</p>'']]
   \<and> fst (loop_body env_ok 0 page_missing 2 (snd (for_pages env_ok 0 [page_one] 0 [] w0)))
       = Inl (new_Error (''Error reading file at path: '' @ [CHR 0x22] @ ''missing.html''
               @ [CHR 0x22, CHR 0x0A]
               @ ''Error: ENOENT: no such file or directory, open missing.html''))
   \<and> fst (generateMultiPagePdf env_ok hummus [page_one, page_missing, page_cover] 0 w0)
       = Inl (new_Error (''Generate Multi Page PDF Error: Error reading file at path: ''
               @ [CHR 0x22] @ ''missing.html'' @ [CHR 0x22, CHR 0x0A]
               @ ''Error: ENOENT: no such file or directory, open missing.html''))
   \<and> events (snd (generateMultiPagePdf env_ok hummus [page_one, page_missing, page_cover] 0 w0))
       = events (snd (loop_body env_ok 0 page_missing 2 (snd (for_pages env_ok 0 [page_one] 0 [] w0))))
         @ [ConsoleError (''Error reading file at path: '' @ [CHR 0x22] @ ''missing.html''
               @ [CHR 0x22, CHR 0x0A]
               @ ''Error: ENOENT: no such file or directory, open missing.html'')]"
proof -
  let ?w1 = "snd (for_pages env_ok 0 [page_one] 0 [] w0)"
  let ?w2 = "snd (loop_body env_ok 0 page_missing (Suc (length [page_one])) ?w1)"
  let ?m = "''Error reading file at path: '' @ [CHR 0x22] @ ''missing.html''
               @ [CHR 0x22, CHR 0x0A]
               @ ''Error: ENOENT: no such file or directory, open missing.html''"
  have f1: "fst (for_pages env_ok 0 [page_one] 0 [] w0) = Inr [PdfDocument [''<p>one</p>'']]"
    by (simp add: method_defs comp_defs collaborator_defs fixture_defs)
  then have a1: "for_pages env_ok 0 [page_one] 0 [] w0 = (Inr [PdfDocument [''<p>one</p>'']], ?w1)"
    by (simp add: prod_eq_iff)
  have f2: "fst (loop_body env_ok 0 page_missing (Suc (length [page_one])) ?w1) = Inl (new_Error ?m)"
    by (simp add: method_defs comp_defs collaborator_defs fixture_defs)
  then have a2: "loop_body env_ok 0 page_missing (Suc (length [page_one])) ?w1 = (Inl (new_Error ?m), ?w2)"
    by (simp add: prod_eq_iff)
  from generateMultiPagePdf_aborts_on_first_failure [OF a1 a2, of hummus "[page_cover]"]
  have "generateMultiPagePdf env_ok hummus [page_one, page_missing, page_cover] 0 w0
          = (Inl (new_Error (''Generate Multi Page PDF Error: '' @ ?m)),
             ?w2\<lparr>events := events ?w2 @ [ConsoleError ?m]\<rparr>)"
    by (auto simp: new_Error_def)
  then have "fst (generateMultiPagePdf env_ok hummus [page_one, page_missing, page_cover] 0 w0)
               = Inl (new_Error (''Generate Multi Page PDF Error: '' @ ?m))"
    and "events (snd (generateMultiPagePdf env_ok hummus [page_one, page_missing, page_cover] 0 w0))
               = events ?w2 @ [ConsoleError ?m]"
    by simp_all
  with f1 f2 show ?thesis by (simp add: numeral_2_eq_2)
qed

text \<open>
  C7 (as amended): for a page whose \<open>templatePath\<close> is a non-empty string
  \<open>p\<close>, whatever its \<open>content\<close>, the iteration reads the file at \<open>p\<close>; when
  the read throws, the iteration throws the file-read error, and when it
  yields \<open>s\<close>, the page is rendered by \<open>generatePdf\<close> from the state in which
  \<open>data\<close> is \<open>s\<close>. Every content the iteration loads into the engine is what
  the read returned.
\<close>

theorem page_with_template_renders_file:
  assumes "templatePath page = Some p" and "p \<noteq> []"
  shows "loop_body E this page i w =
     (case readFile_result E (events w) p of
        Inl e \<Rightarrow>
          (Inl (new_Error (''Error reading file at path: '' @ [CHR 0x22] @ p
                           @ [CHR 0x22, CHR 0x0A] @ toString e)),
           w\<lparr>events := events w @ [ReadFile p, ConsoleError (message_or_error e)]\<rparr>)
      | Inr s \<Rightarrow>
          generatePdf E (Some (params_for_page i page)) this
            (w\<lparr>objs := (objs w)(this := (objs w this)
                   \<lparr>data := s,
                    pdfOptions := (case page_pdfOptions page of
                                     Some opts \<Rightarrow> opts | None \<Rightarrow> Map.empty)\<rparr>),
               events := events w @ [ReadFile p]\<rparr>))
   \<and> (\<forall>d. SetContent d \<in> set (drop (length (events w)) (events (snd (loop_body E this page i w))))
          \<longrightarrow> readFile_result E (events w) p = Inr d)"
proof (cases "readFile_result E (events w) p")
  case (Inl e)
  from fromFile_fail [OF this] assms
  have "page_intake E this page w
          = (Inl (new_Error (''Error reading file at path: '' @ [CHR 0x22] @ p
                             @ [CHR 0x22, CHR 0x0A] @ toString e)),
             w\<lparr>events := events w @ [ReadFile p, ConsoleError (message_or_error e)]\<rparr>)"
    by (simp add: page_intake_def bindc_def)
  from loop_body_intake_fails [OF this] Inl show ?thesis by simp
next
  case (Inr s)
  let ?w1 = "w\<lparr>objs := (objs w)(this := (objs w this)\<lparr>data := s\<rparr>),
                events := events w @ [ReadFile p]\<rparr>"
  let ?w2 = "w\<lparr>objs := (objs w)(this := (objs w this)
                   \<lparr>data := s,
                    pdfOptions := (case page_pdfOptions page of
                                     Some opts \<Rightarrow> opts | None \<Rightarrow> Map.empty)\<rparr>),
               events := events w @ [ReadFile p]\<rparr>"
  from fromFile_ok [OF Inr] assms
  have "page_intake E this page w = (Inr (), ?w1)"
    by (simp add: page_intake_def bindc_def returnc_def)
  from loop_body_after_intake [OF this, of i]
  have lb: "loop_body E this page i w = generatePdf E (Some (params_for_page i page)) this ?w2"
    by (cases w) simp
  from generatePdf_events [of E "Some (params_for_page i page)" this ?w2]
  obtain es where
    es: "events (snd (generatePdf E (Some (params_for_page i page)) this ?w2)) = events ?w2 @ es"
        "\<forall>d. SetContent d \<in> set es \<longrightarrow> d = data (objs ?w2 this)"
    by blast
  have "drop (length (events w)) (events (snd (loop_body E this page i w))) = ReadFile p # es"
    by (simp add: lb es(1))
  with es(2) lb Inr show ?thesis by auto
qed

theorem page_with_template_renders_file_witness:
  "templatePath page_cover = Some ''cover.html'' \<and> ''cover.html'' \<noteq> []
   \<and> content page_cover = Some ''<p>literal</p>''
   \<and> readFile_result env_ok (events w0) ''cover.html'' = Inr ''<h1>Cover</h1>''
   \<and> fst (loop_body env_ok 0 page_cover 1 w0) = Inr (PdfDocument [''<h1>Cover</h1>''])
   \<and> SetContent ''<p>literal</p>''
        \<notin> set (drop (length (events w0)) (events (snd (loop_body env_ok 0 page_cover 1 w0))))"
proof -
  have t: "templatePath page_cover = Some ''cover.html''" and c: "content page_cover = Some ''<p>literal</p>''"
    by (simp_all add: page_cover_def)
  have ne: "''cover.html'' \<noteq> []" by simp
  have rd: "readFile_result env_ok (events w0) ''cover.html'' = Inr ''<h1>Cover</h1>''"
    by (simp add: env_ok_def files0_def)
  note th = page_with_template_renders_file [OF t ne, of env_ok 0 1 w0]
  have "fst (loop_body env_ok 0 page_cover 1 w0) = Inr (PdfDocument [''<h1>Cover</h1>''])"
    unfolding th [THEN conjunct1] rd
    by (simp add: generatePdf_def comp_defs collaborator_defs env_ok_def w0_def)
  moreover have "SetContent ''<p>literal</p>''
        \<notin> set (drop (length (events w0)) (events (snd (loop_body env_ok 0 page_cover 1 w0))))"
  proof
    assume "SetContent ''<p>literal</p>''
        \<in> set (drop (length (events w0)) (events (snd (loop_body env_ok 0 page_cover 1 w0))))"
    with th [THEN conjunct2]
    have "readFile_result env_ok (events w0) ''cover.html'' = Inr ''<p>literal</p>''"
      by blast
    with rd show False by simp
  qed
  ultimately show ?thesis using t c rd by simp
qed

text \<open>
  C7 as stated fails for a page that supplies \<open>content\<close> together with the
  empty string as \<open>templatePath\<close>: the empty string is falsy, no file is read
  (although the file system would serve the path), and the page is rendered
  from the literal content.
\<close>

theorem empty_templatePath_renders_content:
  "content page_empty_path = Some ''<p>literal</p>''
   \<and> templatePath page_empty_path = Some []
   \<and> readFile_result env_all_files [] [] = Inr ''<h1>File</h1>''
   \<and> fst (generateMultiPagePdf env_all_files hummus [page_empty_path] 0 w0)
       = Inr (PdfDocument [''<p>literal</p>''])
   \<and> SetContent ''<p>literal</p>''
        \<in> set (events (snd (generateMultiPagePdf env_all_files hummus [page_empty_path] 0 w0)))
   \<and> ReadFile []
        \<notin> set (events (snd (generateMultiPagePdf env_all_files hummus [page_empty_path] 0 w0)))
   \<and> data (objs (snd (generateMultiPagePdf env_all_files hummus [page_empty_path] 0 w0)) 0)
       = ''<p>literal</p>''"
  by (simp add: method_defs comp_defs collaborator_defs fixture_defs)

end
